theory Spec2Isabelle
  imports Complex_Main
begin

section \<open>Data model (types.ts and the state hooks of App)\<close>

text \<open>
  JavaScript strings are modelled as \<open>string\<close>: one \<open>char\<close> per UTF-16 code unit, for
  code units below 256, so that \<open>length\<close> is the source's \<open>.length\<close>. Screen coordinates
  are JavaScript numbers; they are modelled as \<open>real\<close>, and nothing below depends on their
  arithmetic, only on whether an anchor is present.
\<close>

datatype GenerationStatus = IDLE | LOADING | SUCCESS | ERROR

record VisualResult =
  result_id :: string
  result_text :: string
  imageUrl :: string
  timestamp :: int
  explanation :: "string option"

record File =
  file_name :: string
  file_type :: string

record Position =
  pos_x :: real
  pos_y :: real

text \<open>The DOMRect returned by \<open>getBoundingClientRect\<close>.\<close>

record Rect =
  rect_left :: real
  rect_top :: real
  rect_width :: real
  rect_height :: real

text \<open>
  What \<open>window.getSelection()\<close> returns when it is not null: the string of the selection
  and the bounding rectangle of its range 0.
\<close>

record Selection =
  sel_toString :: string
  sel_rect :: Rect

text \<open>What \<open>generateVisualFromContext\<close> resolves to.\<close>

record Generated =
  gen_imageUrl :: string
  gen_explanation :: "string option"

text \<open>
  The eight state hooks of \<open>App\<close>, and the two things the asynchronous handler adds to
  them: \<open>pending\<close>, the selected text each suspended invocation of \<open>handleVisualize\<close> has
  captured in its closure (oldest first), and \<open>requested\<close>, the argument of every call of
  \<open>generateVisualFromContext\<close> made so far.
\<close>

record Session =
  pdfFile :: "File option"
  pdfUrl :: "string option"
  selectedText :: string
  selectionPosition :: "Position option"
  results :: "VisualResult list"
  status :: GenerationStatus
  error :: "string option"
  showHistory :: bool
  pending :: "string list"
  requested :: "string list"

definition initial :: Session where
  "initial = \<lparr>pdfFile = None, pdfUrl = None, selectedText = [], selectionPosition = None,
     results = [], status = IDLE, error = None, showHistory = False,
     pending = [], requested = []\<rparr>"

section \<open>Handlers\<close>

text \<open>\<open>String.prototype.trim\<close>: the white space and line terminators below 256.\<close>

definition is_ws :: "char \<Rightarrow> bool" where
  "is_ws c = (c \<in> set [CHR 0x09, CHR 0x0A, CHR 0x0B, CHR 0x0C, CHR 0x0D, CHR 0x20, CHR 0xA0])"

definition trim :: "string \<Rightarrow> string" where
  "trim s = rev (dropWhile is_ws (rev (dropWhile is_ws s)))"

text \<open>\<open>handleFileChange\<close>; \<open>url\<close> is what \<open>URL.createObjectURL\<close> returns.\<close>

definition handleFileChange :: "File option \<Rightarrow> string \<Rightarrow> Session \<Rightarrow> Session" where
  "handleFileChange selectedFile url s =
     (case selectedFile of
        None \<Rightarrow> s
      | Some f \<Rightarrow>
          if file_type f = ''application/pdf''
          then s\<lparr>pdfFile := Some f, pdfUrl := Some url, error := None\<rparr>
          else s\<lparr>error := Some ''Please select a valid PDF file.''\<rparr>)"

text \<open>
  \<open>handleMouseUp\<close>. \<open>text\<close> is undefined when there is no selection; \<open>text && text.length > 5\<close>
  is false for undefined and for the empty string. The optional chain
  \<open>selection?.getRangeAt(0)?.getBoundingClientRect()\<close> is undefined exactly when the
  selection is null, and then the position is left as it was.
\<close>

definition handleMouseUp :: "Selection option \<Rightarrow> Session \<Rightarrow> Session" where
  "handleMouseUp selection s =
     (let text = map_option (\<lambda>sel. trim (sel_toString sel)) selection in
      case text of
        None \<Rightarrow> s\<lparr>selectedText := [], selectionPosition := None\<rparr>
      | Some t \<Rightarrow>
          if t \<noteq> [] \<and> length t > 5 then
            (let s1 = s\<lparr>selectedText := t\<rparr>;
                 rect = map_option sel_rect selection in
             case rect of
               None \<Rightarrow> s1
             | Some r \<Rightarrow> s1\<lparr>selectionPosition :=
                          Some \<lparr>pos_x = rect_left r + rect_width r / 2,
                                pos_y = rect_top r - 10\<rparr>\<rparr>)
          else s\<lparr>selectedText := [], selectionPosition := None\<rparr>)"

text \<open>
  \<open>handleVisualize\<close>, up to its \<open>await\<close>: the guard on \<open>selectedText\<close>, the three state
  updates, and the call of \<open>generateVisualFromContext(selectedText)\<close>.
\<close>

definition handleVisualize :: "Session \<Rightarrow> Session" where
  "handleVisualize s =
     (if selectedText s = [] then s
      else s\<lparr>status := LOADING, error := None, selectionPosition := None,
             pending := pending s @ [selectedText s],
             requested := requested s @ [selectedText s]\<rparr>)"

text \<open>
  \<open>handleVisualize\<close> after the \<open>await\<close>, when the call of the \<open>k\<close>-th suspended invocation
  resolves to \<open>g\<close>; \<open>rid\<close> is what \<open>Math.random().toString(36).substr(2, 9)\<close> evaluates to
  and \<open>now\<close> what \<open>Date.now()\<close> returns. The text is the one in the closure.
\<close>

definition handleVisualize_fulfilled ::
    "nat \<Rightarrow> Generated \<Rightarrow> string \<Rightarrow> int \<Rightarrow> Session \<Rightarrow> Session" where
  "handleVisualize_fulfilled k g rid now s =
     (if k < length (pending s) then
        (let newResult = \<lparr>result_id = rid, result_text = pending s ! k,
                          imageUrl = gen_imageUrl g, timestamp = now,
                          explanation = gen_explanation g\<rparr>
         in s\<lparr>results := newResult # results s, status := SUCCESS,
               pending := take k (pending s) @ drop (Suc k) (pending s)\<rparr>)
      else s)"

text \<open>The \<open>catch\<close> branch, when the call of the \<open>k\<close>-th suspended invocation rejects.\<close>

definition handleVisualize_rejected :: "nat \<Rightarrow> Session \<Rightarrow> Session" where
  "handleVisualize_rejected k s =
     (if k < length (pending s) then
        s\<lparr>error := Some ''Failed to generate visualization. Please try again.'',
          status := ERROR,
          pending := take k (pending s) @ drop (Suc k) (pending s)\<rparr>
      else s)"

text \<open>\<open>clearCurrentSelection\<close> (defined in the source, called nowhere).\<close>

definition clearCurrentSelection :: "Session \<Rightarrow> Session" where
  "clearCurrentSelection s = s\<lparr>selectedText := [], selectionPosition := None\<rparr>"

text \<open>The header's dismiss button: \<open>setFile(null); setPdfUrl(null); setResults([])\<close>.\<close>

definition removeFile :: "Session \<Rightarrow> Session" where
  "removeFile s = s\<lparr>pdfFile := None, pdfUrl := None, results := []\<rparr>"

text \<open>
  \<open>onClose\<close> of the VisualCard: \<open>prev.filter(r => r.id !== results[0].id)\<close>. The card is
  rendered only when \<open>results.length > 0\<close>; without a card there is nothing to click.
\<close>

definition closeCard :: "Session \<Rightarrow> Session" where
  "closeCard s =
     (case results s of
        [] \<Rightarrow> s
      | r0 # _ \<Rightarrow> s\<lparr>results := filter (\<lambda>r. result_id r \<noteq> result_id r0) (results s)\<rparr>)"

text \<open>The updater of the history drawer: \<open>[res, ...prev.filter(p => p.id !== res.id)]\<close>.\<close>

definition promote :: "VisualResult \<Rightarrow> VisualResult list \<Rightarrow> VisualResult list" where
  "promote res prev = res # filter (\<lambda>p. result_id p \<noteq> result_id res) prev"

text \<open>\<open>onClick\<close> of the drawer entry that shows \<open>res\<close>.\<close>

definition historyEntryClick :: "VisualResult \<Rightarrow> Session \<Rightarrow> Session" where
  "historyEntryClick res s = s\<lparr>results := promote res (results s), showHistory := False\<rparr>"

text \<open>The entries the drawer renders: \<open>results.slice(1)\<close>, when \<open>showHistory\<close> is set.\<close>

definition historyEntries :: "Session \<Rightarrow> VisualResult list" where
  "historyEntries s = (if showHistory s then drop 1 (results s) else [])"

text \<open>
  A click on the \<open>k\<close>-th rendered drawer entry runs the \<open>onClick\<close> that closes over the
  record shown there. A position at which nothing is rendered has nothing to click.
\<close>

definition historyEntryClickAt :: "nat \<Rightarrow> Session \<Rightarrow> Session" where
  "historyEntryClickAt k s =
     (if k < length (historyEntries s) then historyEntryClick (historyEntries s ! k) s
      else s)"

section \<open>Events\<close>

text \<open>
  One event per handler, each available as the JSX renders its element: the file inputs
  only without a file, the viewer and the floating button only with one, the button only
  while \<open>selectionPosition\<close> is set, the dismiss button of the header only with a file.
  Events are handled one at a time, each after the render the previous one caused, so the
  state a handler reads from its closure (\<open>selectedText\<close>, \<open>results[0]\<close>, the drawer's
  \<open>res\<close>) is the current one. The two service events are the exception the source
  makes: they continue an invocation suspended earlier, with the text it captured then.
\<close>

datatype Event =
    FileInput "File option" string
  | ViewerMouseUp "Selection option"
  | VisualizeClick
  | ServiceFulfilled nat Generated string int
  | ServiceRejected nat
  | CardClose
  | HistoryEntryClick nat
  | FileRemoveClick
  | HistoryToggle
  | HistoryClose
  | ErrorDismiss

fun step :: "Event \<Rightarrow> Session \<Rightarrow> Session" where
  "step (FileInput f url) s = (if pdfFile s = None then handleFileChange f url s else s)"
| "step (ViewerMouseUp sel) s = (if pdfFile s \<noteq> None then handleMouseUp sel s else s)"
| "step VisualizeClick s =
     (if pdfFile s \<noteq> None \<and> selectionPosition s \<noteq> None then handleVisualize s else s)"
| "step (ServiceFulfilled k g rid now) s = handleVisualize_fulfilled k g rid now s"
| "step (ServiceRejected k) s = handleVisualize_rejected k s"
| "step CardClose s = closeCard s"
| "step (HistoryEntryClick k) s = historyEntryClickAt k s"
| "step FileRemoveClick s = (if pdfFile s \<noteq> None then removeFile s else s)"
| "step HistoryToggle s = s\<lparr>showHistory := \<not> showHistory s\<rparr>"
| "step HistoryClose s = (if showHistory s then s\<lparr>showHistory := False\<rparr> else s)"
| "step ErrorDismiss s = (if error s \<noteq> None then s\<lparr>error := None\<rparr> else s)"

fun run :: "Event list \<Rightarrow> Session \<Rightarrow> Session" where
  "run [] s = s"
| "run (e # es) s = run es (step e s)"

text \<open>The ids of a history, in order.\<close>

definition ids :: "VisualResult list \<Rightarrow> string list" where
  "ids h = map result_id h"

text \<open>
  A run in which every id drawn for a new result differs from the ids then in the history.
\<close>

fun fresh_ids :: "Event list \<Rightarrow> Session \<Rightarrow> bool" where
  "fresh_ids [] s = True"
| "fresh_ids (ServiceFulfilled k g rid now # es) s =
     (rid \<notin> set (ids (results s)) \<and> fresh_ids es (step (ServiceFulfilled k g rid now) s))"
| "fresh_ids (e # es) s = fresh_ids es (step e s)"

section \<open>Concrete inputs\<close>

definition paper :: File where
  "paper = \<lparr>file_name = ''paper.pdf'', file_type = ''application/pdf''\<rparr>"

definition box :: Rect where
  "box = \<lparr>rect_left = 100, rect_top = 200, rect_width = 80, rect_height = 20\<rparr>"

definition sel_long :: Selection where
  "sel_long = \<lparr>sel_toString = '' quantum entanglement is weird '', sel_rect = box\<rparr>"

definition sel_other :: Selection where
  "sel_other = \<lparr>sel_toString = ''wave-particle duality'', sel_rect = box\<rparr>"

definition sel_short :: Selection where
  "sel_short = \<lparr>sel_toString = ''  wave  '', sel_rect = box\<rparr>"

definition picture :: Generated where
  "picture = \<lparr>gen_imageUrl = ''http://x/img.png'', gen_explanation = Some ''...''\<rparr>"

definition res_a :: VisualResult where
  "res_a = \<lparr>result_id = ''a'', result_text = ''first excerpt'', imageUrl = ''u1'',
     timestamp = 1, explanation = None\<rparr>"

definition res_b :: VisualResult where
  "res_b = \<lparr>result_id = ''b'', result_text = ''second excerpt'', imageUrl = ''u2'',
     timestamp = 2, explanation = Some ''e2''\<rparr>"

definition res_c :: VisualResult where
  "res_c = \<lparr>result_id = ''c'', result_text = ''third excerpt'', imageUrl = ''u3'',
     timestamp = 3, explanation = None\<rparr>"

text \<open>A session with a file, a captured selection and three results, the drawer open.\<close>

definition busy :: Session where
  "busy = \<lparr>pdfFile = Some paper, pdfUrl = Some ''blob:1'',
     selectedText = ''wave-particle duality'',
     selectionPosition = Some \<lparr>pos_x = 140, pos_y = 190\<rparr>,
     results = [res_a, res_b, res_c], status = LOADING, error = Some ''old'',
     showHistory = True, pending = [''first excerpt''], requested = [''first excerpt'']\<rparr>"

text \<open>Event sequences from the initial session.\<close>

definition selected :: "Event list" where
  "selected = [FileInput (Some paper) ''blob:1'', ViewerMouseUp (Some sel_long)]"

definition submitted :: "Event list" where
  "submitted = selected @ [VisualizeClick]"

definition reselected :: "Event list" where
  "reselected = submitted @ [ViewerMouseUp (Some sel_other)]"

definition collide :: "Event list" where
  "collide = submitted @ [ServiceFulfilled 0 picture ''k3j9x0q1z'' 1000,
     ViewerMouseUp (Some sel_other), VisualizeClick,
     ServiceFulfilled 0 picture ''k3j9x0q1z'' 2000]"

definition apart :: "Event list" where
  "apart = submitted @ [ServiceFulfilled 0 picture ''k3j9x0q1z'' 1000,
     ViewerMouseUp (Some sel_other), VisualizeClick,
     ServiceFulfilled 0 picture ''p7m2c5d8w'' 2000, HistoryToggle,
     HistoryEntryClick 0, CardClose]"

definition collide_open :: "Event list" where
  "collide_open = collide @ [HistoryToggle]"

section \<open>Auxiliary facts\<close>

lemmas concrete_defs = paper_def box_def sel_long_def sel_other_def sel_short_def
  picture_def initial_def trim_def is_ws_def res_a_def res_b_def res_c_def

lemmas handler_defs = handleVisualize_def handleVisualize_fulfilled_def
  handleVisualize_rejected_def handleMouseUp_def handleFileChange_def removeFile_def
  closeCard_def historyEntryClickAt_def historyEntryClick_def historyEntries_def promote_def

lemma filter_id_absent:
  "i \<notin> set (ids h) \<Longrightarrow> filter (\<lambda>p. result_id p \<noteq> i) h = h"
  by (induction h) (auto simp add: ids_def)

lemma length_filter_id:
  "distinct (ids h) \<Longrightarrow> i \<in> set (ids h) \<Longrightarrow>
     Suc (length (filter (\<lambda>p. result_id p \<noteq> i) h)) = length h"
proof (induction h)
  case Nil
  then show ?case by (simp add: ids_def)
next
  case (Cons r h)
  show ?case
  proof (cases "result_id r = i")
    case True
    with Cons.prems have "i \<notin> set (ids h)" by (auto simp add: ids_def)
    then show ?thesis using True by (simp add: filter_id_absent)
  next
    case False
    with Cons show ?thesis by (auto simp add: ids_def)
  qed
qed

lemma distinct_filter_ids:
  "distinct (ids h) \<Longrightarrow> distinct (ids (filter P h))"
  by (simp add: ids_def distinct_map_filter)

lemma promote_head:
  "distinct (ids (r # rest)) \<Longrightarrow> promote r (r # rest) = r # rest"
  by (simp add: promote_def ids_def filter_id_absent [unfolded ids_def])

lemma distinct_promote:
  "distinct (ids h) \<Longrightarrow> distinct (ids (promote res h))"
  using distinct_filter_ids [of h "\<lambda>p. result_id p \<noteq> result_id res"]
  by (auto simp add: promote_def ids_def)

lemma history_entry:
  assumes "k < length (historyEntries s)"
  shows "showHistory s \<and> Suc k < length (results s) \<and>
         historyEntries s ! k = results s ! Suc k \<and> historyEntries s ! k \<in> set (results s)"
proof -
  from assms have sh: "showHistory s"
    by (cases "showHistory s") (simp_all add: historyEntries_def)
  with assms have k: "Suc k < length (results s)"
    by (simp add: historyEntries_def)
  with sh have "historyEntries s ! k = results s ! Suc k"
    by (simp add: historyEntries_def)
  with sh k show ?thesis by simp
qed

lemma historyEntryClickAt_cases:
  "historyEntryClickAt k s = s \<or>
   (\<exists>res. res \<in> set (results s) \<and> historyEntryClickAt k s = historyEntryClick res s)"
proof (cases "k < length (historyEntries s)")
  case True
  then have "historyEntries s ! k \<in> set (results s)"
    using history_entry [of k s] by simp
  moreover from True
  have "historyEntryClickAt k s = historyEntryClick (historyEntries s ! k) s"
    by (simp add: historyEntryClickAt_def)
  ultimately show ?thesis by blast
next
  case False
  then show ?thesis by (simp add: historyEntryClickAt_def)
qed

lemma filter_filter_id:
  "filter (\<lambda>r. result_id r \<noteq> i) (filter (\<lambda>p. result_id p \<noteq> i) h) =
     filter (\<lambda>r. result_id r \<noteq> i) h"
  by (induction h) auto

lemma length_filter_id_less:
  "i \<in> set (ids h) \<Longrightarrow> Suc (length (filter (\<lambda>p. result_id p \<noteq> i) h)) \<le> length h"
proof (induction h)
  case Nil
  then show ?case by (simp add: ids_def)
next
  case (Cons r h)
  show ?case
  proof (cases "result_id r = i")
    case True
    then show ?thesis by (simp add: le_SucI)
  next
    case False
    with Cons show ?thesis by (auto simp add: ids_def)
  qed
qed

text \<open>
  Every event keeps the ids of the history distinct, provided the id drawn for a new
  result is not in the history.
\<close>

lemma step_distinct:
  assumes "distinct (ids (results s))"
    and "\<And>k g rid now. e = ServiceFulfilled k g rid now \<Longrightarrow> rid \<notin> set (ids (results s))"
  shows "distinct (ids (results (step e s)))"
proof (cases e)
  case (ServiceFulfilled k g rid now)
  with assms show ?thesis
    by (auto simp add: handleVisualize_fulfilled_def Let_def ids_def)
next
  case CardClose
  show ?thesis
  proof (cases "results s")
    case Nil
    with CardClose show ?thesis by (simp add: closeCard_def ids_def)
  next
    case (Cons r0 rest)
    have "distinct (ids (filter (\<lambda>r. result_id r \<noteq> result_id r0) (results s)))"
      using assms(1) by (rule distinct_filter_ids)
    with CardClose Cons show ?thesis by (simp add: closeCard_def)
  qed
next
  case (HistoryEntryClick k)
  with assms(1) show ?thesis
    using historyEntryClickAt_cases [of k s] distinct_promote [of "results s"]
    by (auto simp add: historyEntryClick_def)
qed (use assms(1) in \<open>auto simp add: handleFileChange_def handleMouseUp_def Let_def
      handleVisualize_def handleVisualize_rejected_def removeFile_def ids_def
      split: option.splits\<close>)

lemma run_distinct:
  "distinct (ids (results s)) \<Longrightarrow> fresh_ids es s \<Longrightarrow> distinct (ids (results (run es s)))"
proof (induction es arbitrary: s)
  case Nil
  then show ?case by simp
next
  case (Cons e es)
  have fr: "fresh_ids es (step e s)"
    using Cons.prems(2) by (cases e) auto
  have "distinct (ids (results (step e s)))"
  proof (rule step_distinct [OF Cons.prems(1)])
    fix k g rid now assume "e = ServiceFulfilled k g rid now"
    with Cons.prems(2) show "rid \<notin> set (ids (results s))" by simp
  qed
  with fr Cons.IH show ?case by simp
qed

text \<open>The sessions the event sequences above lead to.\<close>

lemma run_selected:
  "run selected initial = initial\<lparr>pdfFile := Some paper, pdfUrl := Some ''blob:1'',
     selectedText := ''quantum entanglement is weird'',
     selectionPosition := Some \<lparr>pos_x = 140, pos_y = 190\<rparr>\<rparr>"
  by (simp add: selected_def concrete_defs handler_defs Let_def)

lemma run_append: "run (es @ fs) s = run fs (run es s)"
  by (induction es arbitrary: s) simp_all

lemma run_submitted:
  "run submitted initial = initial\<lparr>pdfFile := Some paper, pdfUrl := Some ''blob:1'',
     selectedText := ''quantum entanglement is weird'', status := LOADING,
     pending := [''quantum entanglement is weird''],
     requested := [''quantum entanglement is weird'']\<rparr>"
  by (simp add: submitted_def run_append run_selected) (simp add: initial_def handler_defs)

lemma run_reselected:
  "run reselected initial = initial\<lparr>pdfFile := Some paper, pdfUrl := Some ''blob:1'',
     selectedText := ''wave-particle duality'',
     selectionPosition := Some \<lparr>pos_x = 140, pos_y = 190\<rparr>, status := LOADING,
     pending := [''quantum entanglement is weird''],
     requested := [''quantum entanglement is weird'']\<rparr>"
  by (simp add: reselected_def run_append run_submitted)
     (simp add: concrete_defs handler_defs Let_def)

section \<open>Submission\<close>

text \<open>
  C10. When the captured selection text is empty, \<open>handleVisualize\<close> does nothing: no call
  of the generation service is made and the whole session (status, error message,
  selection, history, calls made) is what it was; so is it for the click on the button.
\<close>

theorem empty_selection_submit_noop:
  assumes "selectedText s = []"
  shows "handleVisualize s = s \<and> step VisualizeClick s = s"
  using assms by (simp add: handleVisualize_def)

text \<open>Witness for C10: the initial session has no selection.\<close>

theorem empty_selection_submit_noop_witness:
  "selectedText initial = [] \<and> handleVisualize initial = initial \<and>
   requested (handleVisualize initial) = []"
  using empty_selection_submit_noop [of initial] by (simp add: initial_def)

text \<open>
  C2, as the code has it. With a non-empty captured text, \<open>handleVisualize\<close> sets the
  status to Loading, resets the anchor to null, clears the error message and calls the
  generation service with the captured text; the captured text itself stays in
  \<open>selectedText\<close>, and the history is untouched.
\<close>

theorem submit_starts_loading:
  assumes "selectedText s \<noteq> []"
  shows "status (handleVisualize s) = LOADING \<and>
         selectionPosition (handleVisualize s) = None \<and>
         error (handleVisualize s) = None \<and>
         requested (handleVisualize s) = requested s @ [selectedText s] \<and>
         pending (handleVisualize s) = pending s @ [selectedText s] \<and>
         selectedText (handleVisualize s) = selectedText s \<and>
         results (handleVisualize s) = results s"
  using assms by (simp add: handleVisualize_def)

text \<open>Witness for C2: a session with a captured selection and an old error message.\<close>

theorem submit_starts_loading_witness:
  "selectedText busy \<noteq> [] \<and> status (handleVisualize busy) = LOADING \<and>
   selectionPosition (handleVisualize busy) = None \<and> error (handleVisualize busy) = None \<and>
   requested (handleVisualize busy) = [''first excerpt'', ''wave-particle duality'']"
proof -
  have h: "selectedText busy \<noteq> []" by (simp add: busy_def)
  show ?thesis
    using h submit_starts_loading [OF h] by (simp add: busy_def)
qed

text \<open>
  Counterexample to C2 as stated: after selecting a passage and submitting it, the
  captured text is still there, not reset to empty.
\<close>

theorem submit_keeps_text_counterexample:
  "selectedText (run selected initial) \<noteq> [] \<and>
   status (step VisualizeClick (run selected initial)) = LOADING \<and>
   selectedText (step VisualizeClick (run selected initial)) =
     ''quantum entanglement is weird''"
  by (simp add: run_selected) (simp add: initial_def handleVisualize_def)

text \<open>
  C1, as the code has it. \<open>handleVisualize\<close> does not look at the status. While Loading
  with no anchor shown, which is the session a submission leaves behind, the button is not
  rendered and a submit changes nothing; hence a second submit right after a first one is
  ignored and at most one call is added.
\<close>

theorem submit_without_anchor_ignored:
  "(status s = LOADING \<and> selectionPosition s = None \<longrightarrow> step VisualizeClick s = s) \<and>
   step VisualizeClick (step VisualizeClick s) = step VisualizeClick s \<and>
   length (requested (step VisualizeClick (step VisualizeClick s)))
     \<le> Suc (length (requested s))"
  by (simp add: handleVisualize_def)

text \<open>Witness for C1: the session right after the first submission.\<close>

theorem submit_without_anchor_ignored_witness:
  "status (run submitted initial) = LOADING \<and>
   selectionPosition (run submitted initial) = None \<and>
   step VisualizeClick (run submitted initial) = run submitted initial"
  using submit_without_anchor_ignored [of "run submitted initial"]
  unfolding run_submitted by (simp add: initial_def)

text \<open>
  Counterexample to C1 as stated: a new passage selected while the first request is
  loading brings the button back, and the submit then makes a second call while the
  first is still pending.
\<close>

theorem second_call_while_loading_counterexample:
  "status (run reselected initial) = LOADING \<and>
   requested (run reselected initial) = [''quantum entanglement is weird''] \<and>
   requested (step VisualizeClick (run reselected initial)) =
     [''quantum entanglement is weird'', ''wave-particle duality''] \<and>
   pending (step VisualizeClick (run reselected initial)) =
     [''quantum entanglement is weird'', ''wave-particle duality'']"
  by (simp add: run_reselected) (simp add: initial_def handleVisualize_def)

section \<open>Service responses\<close>

text \<open>
  C3. When the call of a pending request succeeds (whatever the status, so also while
  Loading), one result is built from the generated id, the current time, the text
  captured when that request was submitted and the returned image and explanation; it
  becomes the head of the history, whose length grows by one, and the status becomes
  Success.
\<close>

theorem success_inserts_result:
  assumes "k < length (pending s)"
  shows "results (handleVisualize_fulfilled k g rid now s) =
           \<lparr>result_id = rid, result_text = pending s ! k, imageUrl = gen_imageUrl g,
            timestamp = now, explanation = gen_explanation g\<rparr> # results s \<and>
         length (results (handleVisualize_fulfilled k g rid now s)) =
           Suc (length (results s)) \<and>
         status (handleVisualize_fulfilled k g rid now s) = SUCCESS"
  using assms by (simp add: handleVisualize_fulfilled_def Let_def)

text \<open>
  Witness for C3: the response to the first request arrives after another passage has
  been selected; the head carries the text of the submission, not the later selection.
\<close>

theorem success_inserts_result_witness:
  "0 < length (pending (run reselected initial)) \<and>
   results (handleVisualize_fulfilled 0 picture ''k3j9x0q1z'' 1000 (run reselected initial)) =
     [\<lparr>result_id = ''k3j9x0q1z'', result_text = ''quantum entanglement is weird'',
       imageUrl = ''http://x/img.png'', timestamp = 1000, explanation = Some ''...''\<rparr>] \<and>
   status (handleVisualize_fulfilled 0 picture ''k3j9x0q1z'' 1000 (run reselected initial)) =
     SUCCESS"
proof -
  have h: "0 < length (pending (run reselected initial))"
    unfolding run_reselected by (simp add: initial_def)
  show ?thesis
    using h success_inserts_result [OF h, of picture "''k3j9x0q1z''" 1000]
    unfolding run_reselected by (simp add: initial_def picture_def)
qed

text \<open>
  C4. When the call of a pending request fails, the status becomes Error, the error
  message is set, and the history is exactly what it was.
\<close>

theorem failure_sets_error:
  assumes "k < length (pending s)"
  shows "status (handleVisualize_rejected k s) = ERROR \<and>
         error (handleVisualize_rejected k s) =
           Some ''Failed to generate visualization. Please try again.'' \<and>
         error (handleVisualize_rejected k s) \<noteq> None \<and>
         results (handleVisualize_rejected k s) = results s"
  using assms by (simp add: handleVisualize_rejected_def)

text \<open>Witness for C4: the first request fails; the history stays empty.\<close>

theorem failure_sets_error_witness:
  "0 < length (pending (run submitted initial)) \<and>
   status (handleVisualize_rejected 0 (run submitted initial)) = ERROR \<and>
   error (handleVisualize_rejected 0 (run submitted initial)) \<noteq> None \<and>
   results (handleVisualize_rejected 0 (run submitted initial)) = []"
proof -
  have h: "0 < length (pending (run submitted initial))"
    unfolding run_submitted by (simp add: initial_def)
  show ?thesis
    using h failure_sets_error [OF h]
    unfolding run_submitted by (simp add: initial_def)
qed

section \<open>Selection tracking\<close>

text \<open>
  C5. On a selection change carrying the text \<open>s\<close>: if \<open>trim s\<close> has at most 5 characters
  the selection state becomes empty text and null anchor; if it has more than 5, the
  text becomes \<open>trim s\<close> and the anchor is non-null; the status is unchanged either way,
  in every session. (With no selection object at all the selection state becomes empty
  too.)
\<close>

theorem selection_tracker:
  "(length (trim (sel_toString sel)) \<le> 5 \<longrightarrow>
      selectedText (handleMouseUp (Some sel) s) = [] \<and>
      selectionPosition (handleMouseUp (Some sel) s) = None) \<and>
   (length (trim (sel_toString sel)) > 5 \<longrightarrow>
      selectedText (handleMouseUp (Some sel) s) = trim (sel_toString sel) \<and>
      selectionPosition (handleMouseUp (Some sel) s) \<noteq> None) \<and>
   status (handleMouseUp (Some sel) s) = status s \<and>
   selectedText (handleMouseUp None s) = [] \<and>
   selectionPosition (handleMouseUp None s) = None \<and>
   status (handleMouseUp None s) = status s"
  by (auto simp add: handleMouseUp_def Let_def)

text \<open>
  Witness for C5: "wave" between blanks is too short and empties the selection; the
  29 characters of the long passage are kept, trimmed, with an anchor.
\<close>

theorem selection_tracker_witness:
  "length (trim (sel_toString sel_short)) \<le> 5 \<and>
   selectedText (handleMouseUp (Some sel_short) busy) = [] \<and>
   selectionPosition (handleMouseUp (Some sel_short) busy) = None \<and>
   length (trim (sel_toString sel_long)) > 5 \<and>
   selectedText (handleMouseUp (Some sel_long) busy) = ''quantum entanglement is weird'' \<and>
   selectionPosition (handleMouseUp (Some sel_long) busy) \<noteq> None \<and>
   status (handleMouseUp (Some sel_long) busy) = LOADING"
proof -
  have short: "trim (sel_toString sel_short) = ''wave''"
    by (simp add: sel_short_def trim_def is_ws_def)
  have long: "trim (sel_toString sel_long) = ''quantum entanglement is weird''"
    by (simp add: sel_long_def trim_def is_ws_def)
  have st: "status busy = LOADING" by (simp add: busy_def)
  show ?thesis
    using selection_tracker [of sel_short busy] selection_tracker [of sel_long busy]
    by (simp add: short long st)
qed

section \<open>Result history\<close>

text \<open>
  C6, as the code has it. A click on a drawer entry makes the record shown there the head
  of the history, unchanged; the entries with other ids keep their order, the history
  never grows, and the status is never changed. In a history without duplicate ids the
  length stays the same, every id present other than the head's has a drawer entry when
  the drawer is open, and the head itself has none (the updater applied to the head would
  give the same list back); an id absent from the history has no entry either, and a
  position without an entry has nothing to click. Entries that share the promoted id are
  dropped.
\<close>

theorem promote_moves_to_head:
  "(k < length (historyEntries s) \<longrightarrow>
      results (historyEntryClickAt k s) =
        historyEntries s ! k #
        filter (\<lambda>p. result_id p \<noteq> result_id (historyEntries s ! k)) (results s) \<and>
      historyEntries s ! k \<in> set (results s) \<and>
      filter (\<lambda>r. result_id r \<noteq> result_id (historyEntries s ! k))
          (results (historyEntryClickAt k s)) =
        filter (\<lambda>r. result_id r \<noteq> result_id (historyEntries s ! k)) (results s) \<and>
      length (results (historyEntryClickAt k s)) \<le> length (results s) \<and>
      (distinct (ids (results s)) \<longrightarrow>
         length (results (historyEntryClickAt k s)) = length (results s))) \<and>
   (showHistory s \<and> i \<in> set (ids (results s)) \<and> i \<noteq> result_id (hd (results s)) \<longrightarrow>
      (\<exists>j < length (historyEntries s). result_id (historyEntries s ! j) = i)) \<and>
   (distinct (ids (results s)) \<and> results s \<noteq> [] \<longrightarrow>
      result_id (hd (results s)) \<notin> set (ids (historyEntries s)) \<and>
      promote (hd (results s)) (results s) = results s) \<and>
   (i \<notin> set (ids (results s)) \<longrightarrow> i \<notin> set (ids (historyEntries s))) \<and>
   (length (historyEntries s) \<le> k \<longrightarrow> historyEntryClickAt k s = s) \<and>
   status (historyEntryClickAt k s) = status s"
proof -
  have frame: "status (historyEntryClickAt k s) = status s"
    by (simp add: historyEntryClickAt_def historyEntryClick_def)
  have unlisted: "length (historyEntries s) \<le> k \<longrightarrow> historyEntryClickAt k s = s"
    by (simp add: historyEntryClickAt_def)
  have absent: "i \<notin> set (ids (results s)) \<longrightarrow> i \<notin> set (ids (historyEntries s))"
    by (auto simp add: historyEntries_def ids_def dest: in_set_dropD)
  have head: "distinct (ids (results s)) \<and> results s \<noteq> [] \<longrightarrow>
      result_id (hd (results s)) \<notin> set (ids (historyEntries s)) \<and>
      promote (hd (results s)) (results s) = results s"
  proof
    assume a: "distinct (ids (results s)) \<and> results s \<noteq> []"
    then obtain r0 rest where rs: "results s = r0 # rest" by (cases "results s") auto
    with a have d: "distinct (ids (r0 # rest))" by simp
    then have "result_id r0 \<notin> set (ids rest)" by (simp add: ids_def)
    with rs have "result_id (hd (results s)) \<notin> set (ids (historyEntries s))"
      by (auto simp add: historyEntries_def ids_def)
    moreover from d rs have "promote (hd (results s)) (results s) = results s"
      by (simp add: promote_head)
    ultimately show "result_id (hd (results s)) \<notin> set (ids (historyEntries s)) \<and>
      promote (hd (results s)) (results s) = results s" by simp
  qed
  have listed: "showHistory s \<and> i \<in> set (ids (results s)) \<and>
      i \<noteq> result_id (hd (results s)) \<longrightarrow>
      (\<exists>j < length (historyEntries s). result_id (historyEntries s ! j) = i)"
  proof
    assume a: "showHistory s \<and> i \<in> set (ids (results s)) \<and> i \<noteq> result_id (hd (results s))"
    then obtain r0 rest where rs: "results s = r0 # rest"
      by (cases "results s") (auto simp add: ids_def)
    with a have "i \<in> set (map result_id rest)" by (auto simp add: ids_def)
    then obtain j where "j < length rest" "result_id (rest ! j) = i"
      by (auto simp add: in_set_conv_nth)
    with a rs show "\<exists>j < length (historyEntries s). result_id (historyEntries s ! j) = i"
      by (auto simp add: historyEntries_def)
  qed
  have click: "k < length (historyEntries s) \<longrightarrow>
      results (historyEntryClickAt k s) =
        historyEntries s ! k #
        filter (\<lambda>p. result_id p \<noteq> result_id (historyEntries s ! k)) (results s) \<and>
      historyEntries s ! k \<in> set (results s) \<and>
      filter (\<lambda>r. result_id r \<noteq> result_id (historyEntries s ! k))
          (results (historyEntryClickAt k s)) =
        filter (\<lambda>r. result_id r \<noteq> result_id (historyEntries s ! k)) (results s) \<and>
      length (results (historyEntryClickAt k s)) \<le> length (results s) \<and>
      (distinct (ids (results s)) \<longrightarrow>
         length (results (historyEntryClickAt k s)) = length (results s))"
  proof
    assume a: "k < length (historyEntries s)"
    define res where "res = historyEntries s ! k"
    from a have mem: "res \<in> set (results s)"
      unfolding res_def using history_entry [of k s] by simp
    then have idm: "result_id res \<in> set (ids (results s))" by (simp add: ids_def)
    from a have r: "results (historyEntryClickAt k s) =
        res # filter (\<lambda>p. result_id p \<noteq> result_id res) (results s)"
      by (simp add: historyEntryClickAt_def historyEntryClick_def promote_def res_def)
    have order: "filter (\<lambda>r. result_id r \<noteq> result_id res) (results (historyEntryClickAt k s)) =
        filter (\<lambda>r. result_id r \<noteq> result_id res) (results s)"
      by (simp add: r filter_filter_id)
    have le: "length (results (historyEntryClickAt k s)) \<le> length (results s)"
      using length_filter_id_less [OF idm] by (simp add: r)
    have eq: "distinct (ids (results s)) \<longrightarrow>
        length (results (historyEntryClickAt k s)) = length (results s)"
      using length_filter_id [of "results s" "result_id res"] idm by (simp add: r)
    from r mem order le eq
    show "results (historyEntryClickAt k s) =
        historyEntries s ! k #
        filter (\<lambda>p. result_id p \<noteq> result_id (historyEntries s ! k)) (results s) \<and>
      historyEntries s ! k \<in> set (results s) \<and>
      filter (\<lambda>r. result_id r \<noteq> result_id (historyEntries s ! k))
          (results (historyEntryClickAt k s)) =
        filter (\<lambda>r. result_id r \<noteq> result_id (historyEntries s ! k)) (results s) \<and>
      length (results (historyEntryClickAt k s)) \<le> length (results s) \<and>
      (distinct (ids (results s)) \<longrightarrow>
         length (results (historyEntryClickAt k s)) = length (results s))"
      unfolding res_def by (intro conjI)
  qed
  show ?thesis
    by (rule conjI [OF click conjI [OF listed conjI [OF head conjI [OF absent
        conjI [OF unlisted frame]]]]])
qed

text \<open>
  Witness for C6: in a history a, b, c with the drawer open, the entry of c is the second
  one listed and a click on it gives c, a, b; the head a and the unknown id z are not
  listed, and there is no third entry.
\<close>

theorem promote_moves_to_head_witness:
  "Suc 0 < length (historyEntries busy) \<and> distinct (ids (results busy)) \<and>
   showHistory busy \<and> ''c'' \<in> set (ids (results busy)) \<and>
   ''c'' \<noteq> result_id (hd (results busy)) \<and>
   results (historyEntryClickAt (Suc 0) busy) = [res_c, res_a, res_b] \<and>
   length (results (historyEntryClickAt (Suc 0) busy)) = length (results busy) \<and>
   (\<exists>j < length (historyEntries busy). result_id (historyEntries busy ! j) = ''c'') \<and>
   results busy \<noteq> [] \<and> result_id (hd (results busy)) \<notin> set (ids (historyEntries busy)) \<and>
   ''z'' \<notin> set (ids (results busy)) \<and> ''z'' \<notin> set (ids (historyEntries busy)) \<and>
   length (historyEntries busy) \<le> 2 \<and> historyEntryClickAt 2 busy = busy"
proof -
  have h: "historyEntries busy = [res_b, res_c]" "results busy = [res_a, res_b, res_c]"
    "showHistory busy"
    by (simp_all add: busy_def historyEntries_def)
  have i: "ids [res_a, res_b, res_c] = [''a'', ''b'', ''c'']" "ids [res_b, res_c] = [''b'', ''c'']"
    "result_id res_a = ''a''" "result_id res_b = ''b''" "result_id res_c = ''c''"
    by (simp_all add: ids_def res_a_def res_b_def res_c_def)
  show ?thesis
    using promote_moves_to_head [of "Suc 0" busy "''c''"]
      promote_moves_to_head [of 2 busy "''z''"]
    by (simp add: h i)
qed

text \<open>
  Counterexample to C6 as stated: after two generations that drew the same id, with the
  drawer open, promoting the listed entry leaves one entry of the two, and the head is
  no longer the entry that was the head although it carries the promoted id.
\<close>

theorem promote_shrinks_history_counterexample:
  "length (results (run collide_open initial)) = 2 \<and>
   ''k3j9x0q1z'' \<in> set (ids (results (run collide_open initial))) \<and>
   result_id (hd (results (run collide_open initial))) = ''k3j9x0q1z'' \<and>
   length (results (step (HistoryEntryClick 0) (run collide_open initial))) = 1 \<and>
   step (HistoryEntryClick 0) (run collide_open initial) \<noteq> run collide_open initial"
proof -
  have r: "results (run collide_open initial) =
      [\<lparr>result_id = ''k3j9x0q1z'', result_text = ''wave-particle duality'',
        imageUrl = ''http://x/img.png'', timestamp = 2000, explanation = Some ''...''\<rparr>,
       \<lparr>result_id = ''k3j9x0q1z'', result_text = ''quantum entanglement is weird'',
        imageUrl = ''http://x/img.png'', timestamp = 1000, explanation = Some ''...''\<rparr>]"
    and sh: "showHistory (run collide_open initial)"
    by (simp_all add: collide_open_def collide_def submitted_def selected_def
        concrete_defs handler_defs Let_def)
  have c: "results (historyEntryClickAt 0 (run collide_open initial)) =
      [\<lparr>result_id = ''k3j9x0q1z'', result_text = ''quantum entanglement is weird'',
        imageUrl = ''http://x/img.png'', timestamp = 1000, explanation = Some ''...''\<rparr>]"
    by (simp add: historyEntryClickAt_def historyEntries_def historyEntryClick_def
        promote_def r sh)
  have "results (historyEntryClickAt 0 (run collide_open initial)) \<noteq>
      results (run collide_open initial)"
    unfolding c r by simp
  then have "historyEntryClickAt 0 (run collide_open initial) \<noteq> run collide_open initial"
    by auto
  then show ?thesis by (simp add: c r ids_def)
qed

text \<open>
  C7, as the code has it. Closing the card of the head of a non-empty history removes
  the head and every other entry with the head's id: what remains is the tail without
  those entries, in its order, the id of the old head is absent from it, and the status
  is unchanged. In a history without duplicate ids exactly the head is removed and what
  remains is the tail.
\<close>

theorem close_card_removes_head:
  assumes "results s \<noteq> []"
  shows "results (closeCard s) =
           filter (\<lambda>r. result_id r \<noteq> result_id (hd (results s))) (tl (results s)) \<and>
         result_id (hd (results s)) \<notin> set (ids (results (closeCard s))) \<and>
         status (closeCard s) = status s \<and>
         (distinct (ids (results s)) \<longrightarrow> results (closeCard s) = tl (results s))"
proof -
  from assms obtain r0 rest where rs: "results s = r0 # rest"
    by (cases "results s") auto
  then have rem: "results (closeCard s) =
      filter (\<lambda>r. result_id r \<noteq> result_id (hd (results s))) (tl (results s))"
    by (simp add: closeCard_def)
  from rs have gone: "result_id (hd (results s)) \<notin> set (ids (results (closeCard s)))"
    by (auto simp add: closeCard_def ids_def)
  have frame: "status (closeCard s) = status s"
    by (simp add: closeCard_def split: list.splits)
  have tail: "distinct (ids (results s)) \<longrightarrow> results (closeCard s) = tl (results s)"
  proof
    assume "distinct (ids (results s))"
    with rs have "result_id r0 \<notin> set (ids rest)" by (simp add: ids_def)
    then have "filter (\<lambda>r. result_id r \<noteq> result_id r0) rest = rest"
      by (rule filter_id_absent)
    with rs show "results (closeCard s) = tl (results s)"
      by (simp add: closeCard_def)
  qed
  from rem gone frame tail show ?thesis by (intro conjI)
qed

text \<open>Witness for C7: closing the card of a in a history a, b, c leaves b, c.\<close>

theorem close_card_removes_head_witness:
  "results busy \<noteq> [] \<and> distinct (ids (results busy)) \<and>
   results (closeCard busy) = [res_b, res_c] \<and> status (closeCard busy) = LOADING"
proof -
  have n: "results busy \<noteq> []" by (simp add: busy_def)
  have d: "distinct (ids (results busy))"
    by (simp add: busy_def ids_def res_a_def res_b_def res_c_def)
  show ?thesis
    using n d close_card_removes_head [OF n]
    by (simp add: busy_def ids_def res_a_def res_b_def res_c_def)
qed

text \<open>
  Counterexample to C7 as stated: after two generations that drew the same id, closing
  the card of the head empties the history; the other entry is removed with the head.
\<close>

theorem close_card_removes_more_counterexample:
  "length (results (run collide initial)) = 2 \<and>
   tl (results (run collide initial)) \<noteq> [] \<and>
   results (step CardClose (run collide initial)) = []"
proof -
  have r: "results (run collide initial) =
      [\<lparr>result_id = ''k3j9x0q1z'', result_text = ''wave-particle duality'',
        imageUrl = ''http://x/img.png'', timestamp = 2000, explanation = Some ''...''\<rparr>,
       \<lparr>result_id = ''k3j9x0q1z'', result_text = ''quantum entanglement is weird'',
        imageUrl = ''http://x/img.png'', timestamp = 1000, explanation = Some ''...''\<rparr>]"
    by (simp add: collide_def submitted_def selected_def concrete_defs handler_defs Let_def)
  show ?thesis by (simp add: closeCard_def r)
qed

text \<open>
  C8, as the code has it. The id of a new result is drawn at random and compared with
  nothing. In every session reached from the initial one by events in which each drawn
  id differs from the ids then in the history, the history has no two entries with the
  same id: insertion of a result with such an id, promotion, closing the card and the
  removal of the file all keep the ids distinct.
\<close>

theorem fresh_ids_keep_history_distinct:
  "fresh_ids es initial \<longrightarrow> distinct (ids (results (run es initial)))"
  using run_distinct [of initial es] by (simp add: initial_def ids_def)

text \<open>
  Witness for C8: two generations with different ids, then a promotion and a dismissal.
\<close>

theorem fresh_ids_keep_history_distinct_witness:
  "fresh_ids apart initial \<and> distinct (ids (results (run apart initial))) \<and>
   ids (results (run apart initial)) = [''p7m2c5d8w'']"
proof -
  have f: "fresh_ids apart initial"
    by (simp add: apart_def submitted_def selected_def concrete_defs handler_defs
        ids_def Let_def)
  have r: "ids (results (run apart initial)) = [''p7m2c5d8w'']"
    by (simp add: apart_def submitted_def selected_def concrete_defs handler_defs
        ids_def Let_def)
  show ?thesis
    using f r fresh_ids_keep_history_distinct [of apart] by simp
qed

text \<open>
  Counterexample to C8 as stated: when the random id of the second generation equals
  that of the first, the session reached has two entries with the same id.
\<close>

theorem id_collision_counterexample:
  "ids (results (run collide initial)) = [''k3j9x0q1z'', ''k3j9x0q1z''] \<and>
   \<not> distinct (ids (results (run collide initial)))"
  by (simp add: collide_def submitted_def selected_def concrete_defs handler_defs
      ids_def Let_def)

section \<open>Removing the file\<close>

text \<open>
  C9. In every session, the dismiss action of the header empties the whole history and
  clears the file and its URL; status, error message and selection stay as they are.
\<close>

theorem remove_file_clears_history:
  "results (removeFile s) = [] \<and> pdfFile (removeFile s) = None \<and>
   pdfUrl (removeFile s) = None \<and> status (removeFile s) = status s \<and>
   error (removeFile s) = error s \<and> selectedText (removeFile s) = selectedText s \<and>
   selectionPosition (removeFile s) = selectionPosition s"
  by (simp add: removeFile_def)

end
